theory Spec2Isabelle
  imports Complex_Main
begin

section \<open>JavaScript numbers\<close>

text \<open>
  A JavaScript Number is modelled as an exact real extended by the three non-finite
  values. Arithmetic on finite values is exact (no rounding, no overflow, no signed zero);
  the special cases for infinities and NaN follow IEEE 754.
\<close>

datatype jsnum = Finite real | PosInfinity | NegInfinity | NaN

fun isFinite :: "jsnum \<Rightarrow> bool" where
  "isFinite (Finite a) = True"
| "isFinite PosInfinity = False"
| "isFinite NegInfinity = False"
| "isFinite NaN = False"

fun js_negate :: "jsnum \<Rightarrow> jsnum" where
  "js_negate (Finite a) = Finite (- a)"
| "js_negate PosInfinity = NegInfinity"
| "js_negate NegInfinity = PosInfinity"
| "js_negate NaN = NaN"

text \<open>The product of an infinity \<open>i\<close> with a finite factor \<open>a\<close>.\<close>

definition scale_infinity :: "real \<Rightarrow> jsnum \<Rightarrow> jsnum" where
  "scale_infinity a i = (if a = 0 then NaN else if 0 < a then i else js_negate i)"

fun js_times :: "jsnum \<Rightarrow> jsnum \<Rightarrow> jsnum" where
  "js_times NaN y = NaN"
| "js_times x NaN = NaN"
| "js_times (Finite a) (Finite b) = Finite (a * b)"
| "js_times (Finite a) i = scale_infinity a i"
| "js_times i (Finite b) = scale_infinity b i"
| "js_times PosInfinity i = i"
| "js_times NegInfinity i = js_negate i"

fun js_divide :: "jsnum \<Rightarrow> jsnum \<Rightarrow> jsnum" where
  "js_divide NaN y = NaN"
| "js_divide x NaN = NaN"
| "js_divide (Finite a) (Finite b) =
     (if b = 0 then (if a = 0 then NaN else if 0 < a then PosInfinity else NegInfinity)
      else Finite (a / b))"
| "js_divide (Finite a) i = Finite 0"
| "js_divide i (Finite b) = (if 0 \<le> b then i else js_negate i)"
| "js_divide i j = NaN"

text \<open>
  \<open>Math.tan\<close>: NaN for a non-finite argument. At an odd multiple of \<open>\<pi>/2\<close> the exact tangent
  has no value (a binary64 argument never is one); the model gives NaN there.
\<close>

fun Math_tan :: "jsnum \<Rightarrow> jsnum" where
  "Math_tan (Finite a) = (if cos a = 0 then NaN else Finite (tan a))"
| "Math_tan x = NaN"

definition Math_PI :: jsnum where
  "Math_PI = Finite pi"

section \<open>The satellite.js and Cesium interfaces\<close>

record vec3 =
  vx :: jsnum
  vy :: jsnum
  vz :: jsnum

record geodetic =
  longitude :: jsnum
  latitude :: jsnum
  height :: jsnum

text \<open>
  The object \<open>propagate\<close> returns: a property that is \<open>false\<close> or missing is \<open>None\<close>,
  a vector object (always truthy) is \<open>Some\<close>.
\<close>

record position_and_velocity =
  position :: "vec3 option"
  velocity :: "vec3 option"

text \<open>
  The functions imported from satellite.js whose code is not part of the repository are
  parameters of the model. They are pure: a fresh satellite record is built at each call.
\<close>

record ('satrec, 'date) satellite_js =
  twoline2satrec :: "string \<Rightarrow> string \<Rightarrow> 'satrec"
  propagate :: "'satrec \<Rightarrow> 'date \<Rightarrow> position_and_velocity"
  gstime :: "'date \<Rightarrow> jsnum"
  eciToGeodetic :: "vec3 \<Rightarrow> jsnum \<Rightarrow> geodetic"
  geodeticToEcf :: "geodetic \<Rightarrow> vec3"

text \<open>
  Modelled from the spec: \<open>degreesToRadians\<close> of satellite.js, which the footprint formula
  uses for "fullFovDegrees/2 in radians": the angle times \<open>\<pi>/180\<close>.
\<close>

definition degreesToRadians :: "jsnum \<Rightarrow> jsnum" where
  "degreesToRadians d = js_times d (Finite (pi / 180))"

section \<open>calculatePositionAtTime\<close>

text \<open>
  The object \<open>calculatePositionAtTime\<close> returns: \<open>{x, y, z}\<close> on the failure path,
  \<open>{x, y, z, height}\<close> otherwise. A missing \<open>height\<close> property is \<open>None\<close>.
\<close>

record sat_position =
  pos_x :: jsnum
  pos_y :: jsnum
  pos_z :: jsnum
  pos_height :: "jsnum option"

datatype console_entry =
    InvalidPositionAndVelocity position_and_velocity
  | InvalidCartesianCoordinates sat_position

type_synonym console = "console_entry list"

definition tleLine1 :: string where
  "tleLine1 = ''1 25544U 98067A   21275.51251685  .00001419  00000-0  32216-4 0  9993''"

definition tleLine2 :: string where
  "tleLine2 = ''2 25544  51.6441  51.4465 0002207 282.8304 220.1671 15.48935791293993''"

definition calculatePositionAtTime ::
  "('satrec, 'date) satellite_js \<Rightarrow> string \<Rightarrow> string \<Rightarrow> 'date \<Rightarrow> console
     \<Rightarrow> sat_position \<times> console" where
  "calculatePositionAtTime lib line1 line2 date con =
     (let satellite = twoline2satrec lib line1 line2;
          positionAndVelocity = propagate lib satellite date
      in case (position positionAndVelocity, velocity positionAndVelocity) of
           (Some positionEci, Some v) \<Rightarrow>
             (let gmst = gstime lib date;
                  positionGd = eciToGeodetic lib positionEci gmst;
                  lon = degreesToRadians (longitude positionGd);
                  lat = degreesToRadians (latitude positionGd);
                  h = js_times (height positionGd) (Finite 1000);
                  cartesianPosition =
                    geodeticToEcf lib \<lparr>longitude = lon, latitude = lat, height = h\<rparr>
              in (\<lparr>pos_x = vx cartesianPosition, pos_y = vy cartesianPosition,
                    pos_z = vz cartesianPosition, pos_height = Some h\<rparr>, con))
         | _ \<Rightarrow>
             (\<lparr>pos_x = NaN, pos_y = NaN, pos_z = NaN, pos_height = None\<rparr>,
              con @ [InvalidPositionAndVelocity positionAndVelocity]))"

section \<open>calculateFovFootprint\<close>

text \<open>
  The string \<open>toFixed\<close> returns. For a finite value of magnitude at least \<open>10\<^sup>2\<^sup>1\<close>,
  \<open>toFixed\<close> hands over to \<open>Number::toString\<close>, which writes exponential notation
  (such as \<open>3.14e+22\<close>) with the shortest digit string that identifies the binary64 value;
  these digits are not determined by an exact real, so that string is kept symbolic as
  \<open>NumberToString x\<close>.
\<close>

datatype js_text = Text string | NumberToString real

definition digit_char :: "nat \<Rightarrow> char" where
  "digit_char d = ''0123456789'' ! d"

function dec_digits :: "nat \<Rightarrow> string" where
  "dec_digits n = (if n < 10 then [digit_char n] else dec_digits (n div 10) @ [digit_char (n mod 10)])"
  by pat_completeness auto
termination
  by (relation "measure (\<lambda>n. n)") auto

declare dec_digits.simps [simp del]

text \<open>
  \<open>Number.prototype.toFixed\<close> at two fraction digits, the only way the source calls it
  (ECMA-262, 21.1.3.3): the sign is split off, the integer \<open>n\<close> nearest to \<open>100 x\<close> is
  taken (the larger one on a tie), its digits are padded with zeros to three characters at
  least, and the point goes before the last two.
\<close>

definition toFixed2 :: "jsnum \<Rightarrow> js_text" where
  "toFixed2 v =
     (case v of
        NaN \<Rightarrow> Text ''NaN''
      | PosInfinity \<Rightarrow> Text ''Infinity''
      | NegInfinity \<Rightarrow> Text ''-Infinity''
      | Finite x \<Rightarrow>
          (let s = (if x < 0 then ''-'' else []);
               a = (if x < 0 then - x else x)
           in if 10 ^ 21 \<le> a then NumberToString x
              else
                (let n = nat \<lfloor>a * 100 + 1 / 2\<rfloor>;
                     m = dec_digits n;
                     k = length m;
                     m = (if k \<le> 2 then replicate (3 - k) CHR ''0'' @ m else m);
                     k = (if k \<le> 2 then 3 else k)
                 in Text (s @ take (k - 2) m @ ''.'' @ drop (k - 2) m))))"

definition calculateFovFootprint :: "jsnum \<Rightarrow> jsnum \<Rightarrow> js_text" where
  "calculateFovFootprint h fovAngle =
     (let fovRadius = js_times h (Math_tan (degreesToRadians (js_divide fovAngle (Finite 2))));
          footprintArea =
            js_divide (js_times (js_times Math_PI fovRadius) fovRadius) (Finite 1000000)
      in toFixed2 footprintArea)"

section \<open>The sampling loop of the viewer effect\<close>

text \<open>
  A Cesium \<open>JulianDate\<close> is modelled as a real number of seconds.
  Modelled from the spec: \<open>JulianDate.addSeconds\<close>, the Time System's
  \<open>addSeconds(instant, seconds)\<close>, adds the duration to the instant.
\<close>

type_synonym julian_date = real

definition JulianDate_addSeconds :: "julian_date \<Rightarrow> real \<Rightarrow> julian_date" where
  "JulianDate_addSeconds t s = t + s"

text \<open>
  The rest of Cesium's \<open>JulianDate\<close> is a parameter: \<open>JulianDate_now i\<close> is what
  \<open>JulianDate.now()\<close> returns in the iteration whose counter is \<open>i\<close> (the loop reads
  the clock once per iteration), \<open>JulianDate_toDate\<close> converts to a JavaScript Date.
\<close>

record 'date cesium =
  JulianDate_now :: "nat \<Rightarrow> julian_date"
  JulianDate_toDate :: "julian_date \<Rightarrow> 'date"

text \<open>A value of the React state \<open>footprintArea\<close>: the number 0 at first, then strings.\<close>

datatype js_value = NumberValue jsnum | StringValue js_text

text \<open>
  What the loop changes: the calls of \<open>positionProperty.addSample\<close> in order,
  the React state \<open>footprintArea\<close>, and the console.
\<close>

record viewer_state =
  samples :: "(julian_date \<times> vec3) list"
  footprintArea :: js_value
  console_log :: console

text \<open>Reading a property that may be missing as a number: \<open>undefined\<close> becomes NaN.\<close>

fun to_number :: "jsnum option \<Rightarrow> jsnum" where
  "to_number None = NaN"
| "to_number (Some v) = v"

definition initial_state :: viewer_state where
  "initial_state = \<lparr>samples = [], footprintArea = NumberValue (Finite 0), console_log = []\<rparr>"

definition loop_body ::
  "('satrec, 'date) satellite_js \<Rightarrow> 'date cesium \<Rightarrow> nat \<Rightarrow> viewer_state \<Rightarrow> viewer_state" where
  "loop_body lib cz i st =
     (let julianDate = JulianDate_addSeconds (JulianDate_now cz i) (real i);
          date = JulianDate_toDate cz julianDate;
          (p, con) = calculatePositionAtTime lib tleLine1 tleLine2 date (console_log st)
      in if isFinite (pos_x p) \<and> isFinite (pos_y p) \<and> isFinite (pos_z p) then
           st\<lparr>samples := samples st @ [(julianDate, \<lparr>vx = pos_x p, vy = pos_y p, vz = pos_z p\<rparr>)],
              footprintArea :=
                StringValue (calculateFovFootprint (to_number (pos_height p)) (Finite 45)),
              console_log := con\<rparr>
         else st\<lparr>console_log := con @ [InvalidCartesianCoordinates p]\<rparr>)"

function sampling_loop ::
  "('satrec, 'date) satellite_js \<Rightarrow> 'date cesium \<Rightarrow> nat \<Rightarrow> viewer_state \<Rightarrow> viewer_state" where
  "sampling_loop lib cz i st =
     (if i < 3600 then sampling_loop lib cz (i + 10) (loop_body lib cz i st) else st)"
  by pat_completeness auto
termination
  by (relation "measure (\<lambda>(lib, cz, i, st). 3600 - i)") auto

declare sampling_loop.simps [simp del]

definition sampling_sweep ::
  "('satrec, 'date) satellite_js \<Rightarrow> 'date cesium \<Rightarrow> viewer_state" where
  "sampling_sweep lib cz = sampling_loop lib cz 0 initial_state"

text \<open>
  The instant, the date and the position of the iteration with counter \<open>i\<close>, and whether
  its position passes the loop's \<open>isFinite\<close> test.
\<close>

definition instant_at :: "'date cesium \<Rightarrow> nat \<Rightarrow> julian_date" where
  "instant_at cz i = JulianDate_addSeconds (JulianDate_now cz i) (real i)"

definition position_at ::
  "('satrec, 'date) satellite_js \<Rightarrow> 'date cesium \<Rightarrow> nat \<Rightarrow> sat_position" where
  "position_at lib cz i =
     fst (calculatePositionAtTime lib tleLine1 tleLine2 (JulianDate_toDate cz (instant_at cz i)) [])"

definition finite_position :: "sat_position \<Rightarrow> bool" where
  "finite_position p \<longleftrightarrow> isFinite (pos_x p) \<and> isFinite (pos_y p) \<and> isFinite (pos_z p)"

definition cartesian3 :: "sat_position \<Rightarrow> vec3" where
  "cartesian3 p = \<lparr>vx = pos_x p, vy = pos_y p, vz = pos_z p\<rparr>"

definition finite_vec3 :: "vec3 \<Rightarrow> bool" where
  "finite_vec3 c \<longleftrightarrow> isFinite (vx c) \<and> isFinite (vy c) \<and> isFinite (vz c)"

text \<open>Propagation fails at an instant when the position or the velocity is missing.\<close>

definition propagation_fails ::
  "('satrec, 'date) satellite_js \<Rightarrow> 'date cesium \<Rightarrow> nat \<Rightarrow> bool" where
  "propagation_fails lib cz i \<longleftrightarrow>
     (let pv = propagate lib (twoline2satrec lib tleLine1 tleLine2)
                 (JulianDate_toDate cz (instant_at cz i))
      in position pv = None \<or> velocity pv = None)"

text \<open>The counters the loop runs through: 0, 10, ..., 3590.\<close>

definition loop_counters :: "nat list" where
  "loop_counters = map (\<lambda>k. 10 * k) [0..<360]"

text \<open>
  The frame transform fails at an instant when propagation succeeded there and the
  Earth-fixed position that comes out has a coordinate that is not finite.
\<close>

definition transform_fails ::
  "('satrec, 'date) satellite_js \<Rightarrow> 'date cesium \<Rightarrow> nat \<Rightarrow> bool" where
  "transform_fails lib cz i \<longleftrightarrow>
     \<not> propagation_fails lib cz i \<and> \<not> finite_position (position_at lib cz i)"

section \<open>Reading the footprint string\<close>

text \<open>The number in the local constant \<open>footprintArea\<close> of \<open>calculateFovFootprint\<close>.\<close>

definition footprint_number :: "jsnum \<Rightarrow> jsnum \<Rightarrow> jsnum" where
  "footprint_number h fovAngle =
     (let fovRadius = js_times h (Math_tan (degreesToRadians (js_divide fovAngle (Finite 2))))
      in js_divide (js_times (js_times Math_PI fovRadius) fovRadius) (Finite 1000000))"

definition is_digit :: "char \<Rightarrow> bool" where
  "is_digit c \<longleftrightarrow> c \<in> set ''0123456789''"

definition digit_value :: "char \<Rightarrow> nat" where
  "digit_value c = of_char c - 48"

definition nat_of_digits :: "string \<Rightarrow> nat" where
  "nat_of_digits s = foldl (\<lambda>a c. 10 * a + digit_value c) 0 s"

text \<open>A string without its leading minus sign, if it has one.\<close>

fun unsigned :: "string \<Rightarrow> string" where
  "unsigned [] = []"
| "unsigned (c # cs) = (if c = CHR ''-'' then cs else c # cs)"

text \<open>
  Fixed-point notation with exactly two fraction digits: an optional minus sign, one digit
  or more, a point, two digits. What \<open>Number::toString\<close> writes for a magnitude of
  \<open>10\<^sup>2\<^sup>1\<close> or more is exponential notation, so not of this form.
\<close>

fun two_fraction_digits :: "js_text \<Rightarrow> bool" where
  "two_fraction_digits (Text s) =
     (let u = unsigned s; k = length u
      in 4 \<le> k \<and> list_all is_digit (take (k - 3) u) \<and> u ! (k - 3) = CHR ''.''
         \<and> list_all is_digit (drop (k - 2) u))"
| "two_fraction_digits (NumberToString x) = False"

text \<open>
  The number a footprint string denotes: the decimal value of a string in fixed-point
  notation with two fraction digits; the value itself for \<open>NumberToString x\<close>, which
  identifies \<open>x\<close>; nothing for any other string.
\<close>

fun text_value :: "js_text \<Rightarrow> real option" where
  "text_value (Text s) =
     (if two_fraction_digits (Text s)
      then (let u = unsigned s; k = length u;
                v = real (nat_of_digits (take (k - 3) u))
                      + real (nat_of_digits (drop (k - 2) u)) / 100
            in Some (if u = s then v else - v))
      else None)"
| "text_value (NumberToString x) = Some x"

section \<open>Concrete inputs\<close>

text \<open>
  A stand-in for satellite.js on which the definitions can be run: the orbit propagates
  while the date (in seconds) is below \<open>lifetime\<close> and has decayed from then on; the two
  frame conversions only move the components around.
\<close>

definition toy_lib :: "real \<Rightarrow> (unit, julian_date) satellite_js" where
  "toy_lib lifetime =
     \<lparr>twoline2satrec = (\<lambda>l1 l2. ()),
      propagate = (\<lambda>s d.
        if d < lifetime
        then \<lparr>position = Some \<lparr>vx = Finite 6800, vy = Finite d, vz = Finite 0\<rparr>,
              velocity = Some \<lparr>vx = Finite 0, vy = Finite (15 / 2), vz = Finite 0\<rparr>\<rparr>
        else \<lparr>position = None, velocity = None\<rparr>),
      gstime = (\<lambda>d. Finite 0),
      eciToGeodetic = (\<lambda>p g. \<lparr>longitude = vy p, latitude = vz p, height = vx p\<rparr>),
      geodeticToEcf = (\<lambda>g. \<lparr>vx = height g, vy = longitude g, vz = latitude g\<rparr>)\<rparr>"

text \<open>A clock that advances by a millisecond per iteration; dates are seconds.\<close>

definition ticking_clock :: "julian_date cesium" where
  "ticking_clock =
     \<lparr>JulianDate_now = (\<lambda>i. real i / 10000), JulianDate_toDate = (\<lambda>t. t)\<rparr>"

section \<open>Properties of calculatePositionAtTime\<close>

lemma calculatePositionAtTime_fst:
  "fst (calculatePositionAtTime lib l1 l2 d con) = fst (calculatePositionAtTime lib l1 l2 d [])"
  by (simp add: calculatePositionAtTime_def Let_def split: option.splits)

text \<open>
  C1 (as amended). When propagation fails, that is when the position or the velocity is
  missing from what \<open>propagate\<close> returns, \<open>calculatePositionAtTime\<close> returns the
  sentinel position whose x, y and z are NaN and which has no height, and writes one
  console entry; no separate failure value exists.
\<close>

theorem calculatePositionAtTime_failure_is_NaN_sentinel:
  assumes "pv = propagate lib (twoline2satrec lib l1 l2) d"
    and "position pv = None \<or> velocity pv = None"
  shows "calculatePositionAtTime lib l1 l2 d con =
           (\<lparr>pos_x = NaN, pos_y = NaN, pos_z = NaN, pos_height = None\<rparr>,
            con @ [InvalidPositionAndVelocity pv])"
  using assms
  by (auto simp add: calculatePositionAtTime_def Let_def split: option.splits)

theorem calculatePositionAtTime_failure_is_NaN_sentinel_witness:
  "calculatePositionAtTime (toy_lib 0) tleLine1 tleLine2 5 [] =
     (\<lparr>pos_x = NaN, pos_y = NaN, pos_z = NaN, pos_height = None\<rparr>,
      [InvalidPositionAndVelocity \<lparr>position = None, velocity = None\<rparr>])"
  using calculatePositionAtTime_failure_is_NaN_sentinel
    [of "\<lparr>position = None, velocity = None\<rparr>" "toy_lib 0" tleLine1 tleLine2 5 "[]"]
  by (simp add: toy_lib_def)

text \<open>
  C1 (as stated) fails: for an orbit that has decayed at the requested date, the result
  is a position with NaN coordinates, not a failure value.
\<close>

theorem calculatePositionAtTime_sentinel_counterexample:
  "propagate (toy_lib 1800) (twoline2satrec (toy_lib 1800) tleLine1 tleLine2) 2000
     = \<lparr>position = None, velocity = None\<rparr>
   \<and> pos_x (fst (calculatePositionAtTime (toy_lib 1800) tleLine1 tleLine2 2000 [])) = NaN
   \<and> pos_y (fst (calculatePositionAtTime (toy_lib 1800) tleLine1 tleLine2 2000 [])) = NaN
   \<and> pos_z (fst (calculatePositionAtTime (toy_lib 1800) tleLine1 tleLine2 2000 [])) = NaN"
  by (simp add: calculatePositionAtTime_def toy_lib_def)


section \<open>Properties of the sampling loop\<close>

lemma loop_body_samples:
  "samples (loop_body lib cz i st) =
     samples st @ (if finite_position (position_at lib cz i)
                   then [(instant_at cz i, cartesian3 (position_at lib cz i))] else [])"
proof -
  obtain p con where pc:
    "calculatePositionAtTime lib tleLine1 tleLine2 (JulianDate_toDate cz (instant_at cz i))
       (console_log st) = (p, con)"
    by (cases "calculatePositionAtTime lib tleLine1 tleLine2
                 (JulianDate_toDate cz (instant_at cz i)) (console_log st)")
  have "p = position_at lib cz i"
    using calculatePositionAtTime_fst [of lib tleLine1 tleLine2
        "JulianDate_toDate cz (instant_at cz i)" "console_log st"] pc
    by (simp add: position_at_def)
  with pc show ?thesis
    by (simp add: loop_body_def Let_def instant_at_def [symmetric] finite_position_def
        cartesian3_def)
qed

text \<open>The loop is the left fold of its body over the counters that remain.\<close>

lemma sampling_loop_foldl:
  "j \<le> 360 \<Longrightarrow>
     sampling_loop lib cz (10 * j) st =
       foldl (\<lambda>s i. loop_body lib cz i s) st (map (\<lambda>k. 10 * k) [j..<360])"
proof (induction "360 - j" arbitrary: j st)
  case 0
  then have "j = 360" by simp
  then show ?case by (subst sampling_loop.simps) simp
next
  case (Suc n)
  then have lt: "j < 360" and n: "n = 360 - Suc j" by auto
  have step: "sampling_loop lib cz (10 * j) st =
      sampling_loop lib cz (10 * Suc j) (loop_body lib cz (10 * j) st)"
    using lt by (subst sampling_loop.simps) (simp add: add.commute)
  have "[j..<360] = j # [Suc j..<360]"
    using lt by (simp add: upt_conv_Cons)
  then show ?case
    using Suc.hyps(1) [OF n, of "loop_body lib cz (10 * j) st"] lt step by simp
qed

lemma foldl_loop_body_samples:
  "samples (foldl (\<lambda>s i. loop_body lib cz i s) st cs) =
     samples st @ map (\<lambda>i. (instant_at cz i, cartesian3 (position_at lib cz i)))
                    (filter (\<lambda>i. finite_position (position_at lib cz i)) cs)"
  by (induction cs arbitrary: st) (simp_all add: loop_body_samples)

lemma sampling_sweep_samples:
  "samples (sampling_sweep lib cz) =
     map (\<lambda>i. (instant_at cz i, cartesian3 (position_at lib cz i)))
       (filter (\<lambda>i. finite_position (position_at lib cz i)) loop_counters)"
  using sampling_loop_foldl [of 0 lib cz initial_state]
  by (simp add: sampling_sweep_def foldl_loop_body_samples loop_counters_def initial_state_def)

lemma propagation_fails_sentinel:
  "propagation_fails lib cz i \<Longrightarrow>
     position_at lib cz i = \<lparr>pos_x = NaN, pos_y = NaN, pos_z = NaN, pos_height = None\<rparr>"
  by (auto simp add: propagation_fails_def position_at_def calculatePositionAtTime_def Let_def
      split: option.splits)

lemma toy_lib_position_at:
  "position_at (toy_lib l) ticking_clock i =
     (if real i / 10000 + real i < l
      then \<lparr>pos_x = Finite 6800000,
            pos_y = Finite ((real i / 10000 + real i) * (pi / 180)),
            pos_z = Finite 0, pos_height = Some (Finite 6800000)\<rparr>
      else \<lparr>pos_x = NaN, pos_y = NaN, pos_z = NaN, pos_height = None\<rparr>)"
  by (simp add: position_at_def calculatePositionAtTime_def toy_lib_def ticking_clock_def
      instant_at_def JulianDate_addSeconds_def degreesToRadians_def Let_def)

lemma loop_counters_bound: "i \<in> set loop_counters \<Longrightarrow> i < 3600"
  by (auto simp add: loop_counters_def)

text \<open>
  C5. When every instant of the sweep gives a position with finite coordinates, and the
  clock read at the start of an iteration is never 10 seconds or more behind its previous
  reading (so in particular when the start instant is the same throughout), the sweep adds
  exactly 360 samples, the first one at the start instant itself, and their instants are
  strictly increasing, hence without duplicates.
\<close>

theorem sampling_sweep_360_increasing:
  assumes valid: "\<forall>i \<in> set loop_counters. finite_position (position_at lib cz i)"
    and clock: "\<forall>k < 359. JulianDate_now cz (10 * k) < JulianDate_now cz (10 * Suc k) + 10"
  shows "length (samples (sampling_sweep lib cz)) = 360
    \<and> fst (hd (samples (sampling_sweep lib cz))) = JulianDate_now cz 0
    \<and> sorted_wrt (<) (map fst (samples (sampling_sweep lib cz)))
    \<and> distinct (map fst (samples (sampling_sweep lib cz)))"
proof -
  let ?t = "\<lambda>k. instant_at cz (10 * k)"
  have all: "filter (\<lambda>i. finite_position (position_at lib cz i)) loop_counters = loop_counters"
    using valid by (simp add: filter_id_conv)
  have "samples (sampling_sweep lib cz)
      = map (\<lambda>i. (instant_at cz i, cartesian3 (position_at lib cz i))) loop_counters"
    by (simp add: sampling_sweep_samples all)
  then have times: "map fst (samples (sampling_sweep lib cz)) = map ?t [0..<360]"
    by (simp add: loop_counters_def comp_def)
  have step: "?t k < ?t (Suc k)" if "k < 359" for k
    using clock that by (simp add: instant_at_def JulianDate_addSeconds_def)
  have mono: "?t j < ?t k" if "j < k" "k < 360" for j k
    using that
  proof (induction k)
    case 0
    then show ?case by simp
  next
    case (Suc k)
    show ?case
    proof (cases "j = k")
      case True
      then show ?thesis using step [of k] Suc.prems by simp
    next
      case False
      then have "?t j < ?t k" using Suc by simp
      moreover have "?t k < ?t (Suc k)" using step [of k] Suc.prems by simp
      ultimately show ?thesis by simp
    qed
  qed
  have sorted: "sorted_wrt (<) (map ?t [0..<360])"
    by (simp add: sorted_wrt_iff_nth_less mono del: upt_Suc)
  have len: "length (samples (sampling_sweep lib cz)) = 360"
    using arg_cong [OF times, of length] by simp
  then have "samples (sampling_sweep lib cz) \<noteq> []" by auto
  then have "fst (hd (samples (sampling_sweep lib cz)))
      = hd (map fst (samples (sampling_sweep lib cz)))"
    by (simp add: hd_map)
  also have "\<dots> = ?t 0"
    unfolding times by (simp add: hd_map upt_conv_Cons del: upt_Suc)
  finally have first: "fst (hd (samples (sampling_sweep lib cz))) = JulianDate_now cz 0"
    by (simp add: instant_at_def JulianDate_addSeconds_def)
  have "distinct (map ?t [0..<360])"
    using sorted by (simp only: strict_sorted_iff)
  with len first sorted show ?thesis
    unfolding times by simp
qed

theorem sampling_sweep_360_increasing_witness:
  "length (samples (sampling_sweep (toy_lib 4000) ticking_clock)) = 360
    \<and> fst (hd (samples (sampling_sweep (toy_lib 4000) ticking_clock))) = 0
    \<and> sorted_wrt (<) (map fst (samples (sampling_sweep (toy_lib 4000) ticking_clock)))
    \<and> distinct (map fst (samples (sampling_sweep (toy_lib 4000) ticking_clock)))"
proof -
  have valid: "\<forall>i \<in> set loop_counters.
      finite_position (position_at (toy_lib 4000) ticking_clock i)"
  proof
    fix i assume "i \<in> set loop_counters"
    then have "real i < 3600" using loop_counters_bound [of i] by simp
    then show "finite_position (position_at (toy_lib 4000) ticking_clock i)"
      by (simp add: toy_lib_position_at finite_position_def)
  qed
  have clock: "\<forall>k < 359. JulianDate_now ticking_clock (10 * k)
      < JulianDate_now ticking_clock (10 * Suc k) + 10"
    by (simp add: ticking_clock_def field_simps)
  show ?thesis
    using sampling_sweep_360_increasing [OF valid clock] by (simp add: ticking_clock_def)
qed

lemma fails_iff_not_finite:
  "propagation_fails lib cz i \<or> transform_fails lib cz i
     \<longleftrightarrow> \<not> finite_position (position_at lib cz i)"
  using propagation_fails_sentinel [of lib cz i]
  by (auto simp add: transform_fails_def finite_position_def)

lemma toy_lib_fails:
  "propagation_fails (toy_lib l) ticking_clock i \<or> transform_fails (toy_lib l) ticking_clock i
     \<longleftrightarrow> \<not> real i / 10000 + real i < l"
  by (simp add: fails_iff_not_finite toy_lib_position_at finite_position_def)

lemma toy_lib_4000_samples:
  "samples (sampling_sweep (toy_lib 4000) ticking_clock) =
     map (\<lambda>i. (instant_at ticking_clock i,
                cartesian3 (position_at (toy_lib 4000) ticking_clock i))) loop_counters"
proof -
  have "finite_position (position_at (toy_lib 4000) ticking_clock i)"
    if "i \<in> set loop_counters" for i
  proof -
    have "real i < 3600" using loop_counters_bound [OF that] by simp
    then show ?thesis by (simp add: toy_lib_position_at finite_position_def)
  qed
  then have "filter (\<lambda>i. finite_position (position_at (toy_lib 4000) ticking_clock i))
      loop_counters = loop_counters"
    by (simp add: filter_id_conv)
  then show ?thesis by (simp add: sampling_sweep_samples)
qed

text \<open>
  C6. The samples of a sweep are those of the instants at which neither propagation nor
  the frame transform failed, in the order of the sweep: an instant that failed adds
  nothing (the sequence is shorter by the number of failed instants) and the loop goes on
  to the later instants. When propagation fails at every instant, the sequence is empty.
  The loop is a total function: there is no path on which it stops early.
\<close>

theorem sampling_sweep_skips_failed_instants:
  "samples (sampling_sweep lib cz) =
     map (\<lambda>i. (instant_at cz i, cartesian3 (position_at lib cz i)))
       (filter (\<lambda>i. \<not> (propagation_fails lib cz i \<or> transform_fails lib cz i)) loop_counters)
   \<and> length (samples (sampling_sweep lib cz)) + 
       length (filter (\<lambda>i. propagation_fails lib cz i \<or> transform_fails lib cz i) loop_counters)
       = 360
   \<and> ((\<forall>i \<in> set loop_counters. propagation_fails lib cz i)
        \<longrightarrow> samples (sampling_sweep lib cz) = [])"
proof -
  let ?bad = "\<lambda>i. propagation_fails lib cz i \<or> transform_fails lib cz i"
  have eq: "samples (sampling_sweep lib cz) =
     map (\<lambda>i. (instant_at cz i, cartesian3 (position_at lib cz i)))
       (filter (\<lambda>i. \<not> ?bad i) loop_counters)"
    by (simp only: sampling_sweep_samples fails_iff_not_finite not_not)
  have "length (filter (\<lambda>i. \<not> ?bad i) loop_counters) + length (filter ?bad loop_counters)
      = length loop_counters"
    using sum_length_filter_compl [of ?bad loop_counters] by simp
  then have len: "length (samples (sampling_sweep lib cz)) + length (filter ?bad loop_counters)
      = 360"
    by (simp only: eq length_map) (simp add: loop_counters_def)
  have "samples (sampling_sweep lib cz) = []"
    if "\<forall>i \<in> set loop_counters. propagation_fails lib cz i"
    using that by (simp only: eq) (simp add: filter_empty_conv)
  with eq len show ?thesis by blast
qed

theorem sampling_sweep_skips_failed_instants_witness:
  "length (samples (sampling_sweep (toy_lib 1800) ticking_clock)) = 180
   \<and> samples (sampling_sweep (toy_lib 0) ticking_clock) = []"
proof -
  have "(\<lambda>i. propagation_fails (toy_lib 1800) ticking_clock i
            \<or> transform_fails (toy_lib 1800) ticking_clock i) \<circ> (\<lambda>k. 10 * k)
      = (\<lambda>k. 180 \<le> k)"
    by (rule ext) (simp add: toy_lib_fails field_simps, linarith)
  then have "filter (\<lambda>i. propagation_fails (toy_lib 1800) ticking_clock i
            \<or> transform_fails (toy_lib 1800) ticking_clock i) loop_counters
      = map (\<lambda>k. 10 * k) (filter (\<lambda>k. 180 \<le> k) [0..<360])"
    by (simp only: loop_counters_def filter_map)
  also have "filter (\<lambda>k. 180 \<le> k) [0..<360] = [180..<360]"
  proof -
    have "[0..<360] = [0..<180] @ [180..<360]"
      using upt_add_eq_append [of 0 180 180] by simp
    then show ?thesis
      by (simp only: filter_append) (simp add: filter_empty_conv filter_id_conv del: upt_Suc)
  qed
  finally have bad: "length (filter (\<lambda>i. propagation_fails (toy_lib 1800) ticking_clock i
            \<or> transform_fails (toy_lib 1800) ticking_clock i) loop_counters) = 180"
    by simp
  have dead: "\<forall>i \<in> set loop_counters. propagation_fails (toy_lib 0) ticking_clock i"
    by (simp add: propagation_fails_def toy_lib_def ticking_clock_def instant_at_def
        JulianDate_addSeconds_def not_less)
  have "length (samples (sampling_sweep (toy_lib 1800) ticking_clock)) = 180"
    using sampling_sweep_skips_failed_instants [of "toy_lib 1800" ticking_clock,
        THEN conjunct2, THEN conjunct1] bad
    by linarith
  moreover have "samples (sampling_sweep (toy_lib 0) ticking_clock) = []"
    using sampling_sweep_skips_failed_instants [of "toy_lib 0" ticking_clock,
        THEN conjunct2, THEN conjunct2] dead
    by blast
  ultimately show ?thesis by blast
qed

text \<open>
  C10. Every sample that the sweep adds has finite x, y and z: a position with a
  coordinate that is NaN or infinite is filtered out before \<open>addSample\<close>.
\<close>

theorem sampling_sweep_samples_finite:
  "\<forall>s \<in> set (samples (sampling_sweep lib cz)). finite_vec3 (snd s)"
  by (auto simp add: sampling_sweep_samples finite_position_def finite_vec3_def cartesian3_def)

theorem sampling_sweep_samples_finite_witness:
  "(0, \<lparr>vx = Finite 6800000, vy = Finite 0, vz = Finite 0\<rparr>)
       \<in> set (samples (sampling_sweep (toy_lib 4000) ticking_clock))
   \<and> finite_vec3 (snd (0::real, \<lparr>vx = Finite 6800000, vy = Finite 0, vz = Finite 0\<rparr>))"
proof -
  have "0 \<in> set loop_counters"
    by (simp add: loop_counters_def image_iff del: upt_Suc)
  then have "(instant_at ticking_clock 0, cartesian3 (position_at (toy_lib 4000) ticking_clock 0))
      \<in> set (samples (sampling_sweep (toy_lib 4000) ticking_clock))"
    unfolding toy_lib_4000_samples set_map by (rule imageI)
  moreover have "instant_at ticking_clock 0 = 0"
    by (simp add: instant_at_def ticking_clock_def JulianDate_addSeconds_def)
  moreover have "cartesian3 (position_at (toy_lib 4000) ticking_clock 0)
      = \<lparr>vx = Finite 6800000, vy = Finite 0, vz = Finite 0\<rparr>"
    by (simp add: toy_lib_position_at cartesian3_def)
  ultimately have mem: "(0, \<lparr>vx = Finite 6800000, vy = Finite 0, vz = Finite 0\<rparr>)
       \<in> set (samples (sampling_sweep (toy_lib 4000) ticking_clock))"
    by simp
  with sampling_sweep_samples_finite [of "toy_lib 4000" ticking_clock] show ?thesis
    by blast
qed

section \<open>Properties of toFixed\<close>

lemma digit_char_is_digit: "d < 10 \<Longrightarrow> is_digit (digit_char d)"
  unfolding is_digit_def digit_char_def by (rule nth_mem) simp

lemma digit_char_not_minus: "d < 10 \<Longrightarrow> digit_char d \<noteq> CHR ''-''"
proof -
  assume "d < 10"
  then have "d \<in> {0, 1, 2, 3, 4, 5, 6, 7, 8, 9}" by auto
  then show ?thesis by (auto simp add: digit_char_def)
qed

lemma digit_value_digit_char: "d < 10 \<Longrightarrow> digit_value (digit_char d) = d"
proof -
  assume "d < 10"
  then have "d \<in> {0, 1, 2, 3, 4, 5, 6, 7, 8, 9}" by auto
  then show ?thesis by (auto simp add: digit_char_def digit_value_def)
qed

lemma dec_digits_all_digits: "list_all is_digit (dec_digits n)"
proof (induction n rule: dec_digits.induct)
  case (1 n)
  show ?case
  proof (cases "n < 10")
    case True
    then show ?thesis by (subst dec_digits.simps) (simp add: digit_char_is_digit)
  next
    case False
    with 1 show ?thesis by (subst dec_digits.simps) (simp add: digit_char_is_digit)
  qed
qed

lemma dec_digits_not_empty: "dec_digits n \<noteq> []"
  by (subst dec_digits.simps) simp

lemma nat_of_digits_snoc: "nat_of_digits (s @ [c]) = 10 * nat_of_digits s + digit_value c"
  by (simp add: nat_of_digits_def)

lemma nat_of_dec_digits: "nat_of_digits (dec_digits n) = n"
proof (induction n rule: dec_digits.induct)
  case (1 n)
  show ?case
  proof (cases "n < 10")
    case True
    then show ?thesis
      by (subst dec_digits.simps) (simp add: nat_of_digits_def digit_value_digit_char)
  next
    case False
    with 1 show ?thesis
      by (subst dec_digits.simps) (simp add: nat_of_digits_snoc digit_value_digit_char)
  qed
qed

lemma nat_of_digits_append:
  "nat_of_digits (a @ b) = nat_of_digits a * 10 ^ length b + nat_of_digits b"
proof (induction b rule: rev_induct)
  case Nil
  then show ?case by (simp add: nat_of_digits_def)
next
  case (snoc c b)
  have "nat_of_digits (a @ b @ [c]) = 10 * nat_of_digits (a @ b) + digit_value c"
    using nat_of_digits_snoc [of "a @ b" c] by simp
  with snoc show ?case by (simp add: nat_of_digits_snoc algebra_simps)
qed

lemma nat_of_digits_zeros: "nat_of_digits (replicate j CHR ''0'') = 0"
proof (induction j)
  case 0
  then show ?case by (simp add: nat_of_digits_def)
next
  case (Suc j)
  have "replicate (Suc j) CHR ''0'' = replicate j CHR ''0'' @ [CHR ''0'']"
    by (simp add: replicate_append_same)
  then show ?case
    using Suc by (simp only: nat_of_digits_snoc) (simp add: digit_value_def)
qed

lemma is_digit_not_minus: "is_digit c \<Longrightarrow> c \<noteq> CHR ''-''"
  by (auto simp add: is_digit_def)

lemma is_digit_not_point: "is_digit c \<Longrightarrow> c \<noteq> CHR ''.''"
  by (auto simp add: is_digit_def)

text \<open>The layout step of \<open>toFixed\<close>: the point goes before the last two digits.\<close>

lemma point_layout:
  assumes digits: "list_all is_digit m" and len: "3 \<le> length m"
  defines "u \<equiv> take (length m - 2) m @ ''.'' @ drop (length m - 2) m"
  shows "unsigned u = u"
    and "two_fraction_digits (Text u)"
    and "text_value (Text u) = Some (real (nat_of_digits m) / 100)"
proof -
  let ?k = "length m"
  have lu: "length u = ?k + 1" using len by (simp add: u_def)
  obtain c cs where m: "m = c # cs" using len by (cases m) auto
  then have "is_digit c" using digits by simp
  then have c: "c \<noteq> CHR ''-''" by (rule is_digit_not_minus)
  have "u = c # (take (?k - 3) cs @ ''.'' @ drop (?k - 2) m)"
    using len m by (simp add: u_def take_Cons' numeral_3_eq_3)
  with c show uns: "unsigned u = u" by simp
  have tk: "take (length u - 3) u = take (?k - 2) m"
    using len by (simp add: lu u_def)
  have dr: "drop (length u - 2) u = drop (?k - 2) m"
    using len by (simp add: lu u_def)
  have pt: "u ! (length u - 3) = CHR ''.''"
    using len by (simp add: lu u_def nth_append)
  have d1: "list_all is_digit (take (?k - 2) m)"
    using digits by (auto simp add: list_all_iff dest: in_set_takeD)
  have d2: "list_all is_digit (drop (?k - 2) m)"
    using digits by (auto simp add: list_all_iff dest: in_set_dropD)
  have unfold: "two_fraction_digits (Text u) \<longleftrightarrow>
      4 \<le> length u \<and> list_all is_digit (take (length u - 3) u)
      \<and> u ! (length u - 3) = CHR ''.'' \<and> list_all is_digit (drop (length u - 2) u)"
    by (simp only: two_fraction_digits.simps uns Let_def)
  show two: "two_fraction_digits (Text u)"
    unfolding unfold tk dr pt using d1 d2 len lu by simp
  have "nat_of_digits m = nat_of_digits (take (?k - 2) m @ drop (?k - 2) m)" by simp
  also have "\<dots> = nat_of_digits (take (?k - 2) m) * 100 + nat_of_digits (drop (?k - 2) m)"
    using len by (simp only: nat_of_digits_append) simp
  finally have "real (nat_of_digits m) / 100
      = real (nat_of_digits (take (?k - 2) m)) + real (nat_of_digits (drop (?k - 2) m)) / 100"
    by simp
  moreover have "text_value (Text u)
      = Some (real (nat_of_digits (take (length u - 3) u))
                + real (nat_of_digits (drop (length u - 2) u)) / 100)"
    using two by (simp only: text_value.simps uns Let_def if_True refl)
  ultimately show "text_value (Text u) = Some (real (nat_of_digits m) / 100)"
    by (simp only: tk dr)
qed

text \<open>The digits \<open>toFixed\<close> lays out: those of \<open>n\<close>, padded to three.\<close>

lemma padded_digits:
  defines "pad \<equiv> \<lambda>n. (if length (dec_digits n) \<le> 2
      then replicate (3 - length (dec_digits n)) CHR ''0'' @ dec_digits n else dec_digits n)"
  shows "list_all is_digit (pad n)" and "3 \<le> length (pad n)" and "nat_of_digits (pad n) = n"
    and "length (pad n) = (if length (dec_digits n) \<le> 2 then 3 else length (dec_digits n))"
proof -
  have z: "is_digit CHR ''0''" by (simp add: is_digit_def)
  show "list_all is_digit (pad n)"
    using dec_digits_all_digits [of n] z by (simp add: pad_def list_all_iff)
  show "3 \<le> length (pad n)" by (simp add: pad_def)
  show "nat_of_digits (pad n) = n"
    by (simp add: pad_def nat_of_digits_append nat_of_digits_zeros nat_of_dec_digits)
  show "length (pad n) = (if length (dec_digits n) \<le> 2 then 3 else length (dec_digits n))"
    by (simp add: pad_def)
qed

lemma toFixed2_small:
  assumes "0 \<le> x" and "x < 10 ^ 21"
  shows "\<exists>u. toFixed2 (Finite x) = Text u \<and> two_fraction_digits (Text u)
           \<and> text_value (Text u) = Some (real (nat \<lfloor>x * 100 + 1 / 2\<rfloor>) / 100)"
proof -
  let ?n = "nat \<lfloor>x * 100 + 1 / 2\<rfloor>"
  let ?m = "if length (dec_digits ?n) \<le> 2
      then replicate (3 - length (dec_digits ?n)) CHR ''0'' @ dec_digits ?n else dec_digits ?n"
  let ?u = "take (length ?m - 2) ?m @ ''.'' @ drop (length ?m - 2) ?m"
  have "toFixed2 (Finite x) = Text ?u"
    using assms padded_digits(4) [of ?n]
    by (simp add: toFixed2_def Let_def not_le del: replicate_Suc)
  moreover have "two_fraction_digits (Text ?u)"
    using padded_digits(1,2) [of ?n] by (rule point_layout(2))
  moreover have "text_value (Text ?u) = Some (real ?n / 100)"
    using point_layout(3) [OF padded_digits(1,2), of ?n] padded_digits(3) [of ?n]
    by simp
  ultimately show ?thesis by blast
qed

lemma toFixed2_large:
  "10 ^ 21 \<le> x \<Longrightarrow> toFixed2 (Finite x) = NumberToString x"
  by (simp add: toFixed2_def Let_def)

section \<open>Properties of calculateFovFootprint\<close>

lemma calculateFovFootprint_toFixed2:
  "calculateFovFootprint h f = toFixed2 (footprint_number h f)"
  by (simp add: calculateFovFootprint_def footprint_number_def Let_def)

lemma footprint_number_Finite:
  "footprint_number (Finite h) (Finite f) =
     (if cos (f / 2 * (pi / 180)) = 0 then NaN
      else Finite (pi * (h * tan (f / 2 * (pi / 180)))\<^sup>2 / 1000000))"
  by (simp add: footprint_number_def Let_def degreesToRadians_def Math_PI_def power2_eq_square
      mult.assoc)

lemma footprint_number_nonneg:
  "footprint_number (Finite h) (Finite f) = Finite a \<Longrightarrow> 0 \<le> a"
proof -
  assume eq: "footprint_number (Finite h) (Finite f) = Finite a"
  then have "a = pi * (h * tan (f / 2 * (pi / 180)))\<^sup>2 / 1000000"
    by (simp only: footprint_number_Finite split: if_splits) simp_all
  moreover have "0 \<le> pi * (h * tan (f / 2 * (pi / 180)))\<^sup>2 / 1000000"
    by simp
  ultimately show ?thesis by (simp only:)
qed


lemma half_angle_in_range:
  assumes "0 < f" and "f < 180"
  shows "0 < f / 2 * (pi / 180)" and "f / 2 * (pi / 180) < pi / 2"
proof -
  show "0 < f / 2 * (pi / 180)" using assms by simp
  have "f / 2 * (pi / 180) = pi / 2 * (f / 180)" by simp
  also have "\<dots> < pi / 2 * 1"
    using assms by (intro mult_strict_left_mono) simp_all
  finally show "f / 2 * (pi / 180) < pi / 2" by simp
qed

lemma cos_half_angle_pos:
  assumes "0 < f" and "f < 180"
  shows "0 < cos (f / 2 * (pi / 180))"
proof (rule cos_gt_zero_pi)
  show "- (pi / 2) < f / 2 * (pi / 180)"
    using half_angle_in_range(1) [OF assms] pi_gt_zero by linarith
  show "f / 2 * (pi / 180) < pi / 2"
    by (rule half_angle_in_range(2) [OF assms])
qed

lemma footprint_number_valid:
  assumes "0 < f" and "f < 180"
  shows "footprint_number (Finite h) (Finite f)
    = Finite (pi * (h * tan (f / 2 * (pi / 180)))\<^sup>2 / 1000000)"
  using cos_half_angle_pos [OF assms] by (simp only: footprint_number_Finite) simp



text \<open>
  C9 (as amended). \<open>calculateFovFootprint\<close> is a total function, and for every finite
  altitude and field of view at which the area it computes is a finite number below
  \<open>10\<^sup>2\<^sup>1\<close>, it returns a string in fixed-point notation with exactly two fraction digits.
\<close>

theorem calculateFovFootprint_two_fraction_digits:
  assumes "footprint_number (Finite h) (Finite f) = Finite a" and "a < 10 ^ 21"
  shows "\<exists>s. calculateFovFootprint (Finite h) (Finite f) = Text s
           \<and> two_fraction_digits (Text s)"
  using toFixed2_small [OF footprint_number_nonneg [OF assms(1)] assms(2)] assms(1)
  by (auto simp add: calculateFovFootprint_toFixed2)

theorem calculateFovFootprint_two_fraction_digits_witness:
  "\<exists>s. calculateFovFootprint (Finite 500000) (Finite 90) = Text s
           \<and> two_fraction_digits (Text s)"
proof -
  have "footprint_number (Finite 500000) (Finite 90) = Finite (pi * 250000)"
    by (simp add: footprint_number_valid tan_45)
  moreover have "pi * 250000 < 10 ^ 21"
    using pi_less_4 by simp
  ultimately show ?thesis
    by (rule calculateFovFootprint_two_fraction_digits)
qed

text \<open>
  C9 (as stated) fails: at the finite altitude \<open>10\<^sup>1\<^sup>4\<close> and a field of view of 90 degrees
  the area is \<open>\<pi> 10\<^sup>2\<^sup>2\<close>, for which \<open>toFixed\<close> returns the exponential notation of
  \<open>Number::toString\<close>.
\<close>

theorem calculateFovFootprint_exponential_counterexample:
  "calculateFovFootprint (Finite (10 ^ 14)) (Finite 90) = NumberToString (pi * 10 ^ 22)
   \<and> \<not> two_fraction_digits (calculateFovFootprint (Finite (10 ^ 14)) (Finite 90))"
proof -
  have "footprint_number (Finite (10 ^ 14)) (Finite 90) = Finite (pi * 10 ^ 22)"
    by (simp add: footprint_number_valid tan_45)
  moreover have "(10::real) ^ 21 \<le> pi * 10 ^ 22"
    using pi_ge_two by simp
  ultimately show ?thesis
    by (simp add: calculateFovFootprint_toFixed2 toFixed2_large)
qed






section \<open>The footprint at 45 degrees\<close>

text \<open>
  Bounds on \<open>\<pi>\<close>, from the Taylor polynomial of the sine at two points around \<open>\<pi>/6\<close>,
  and on \<open>tan (\<pi>/8)\<close>, the positive root of \<open>t\<^sup>2 + 2 t = 1\<close>.
\<close>

lemma sin_taylor_11:
  "(\<Sum>m<11. sin_coeff m * x ^ m) = x - x^3 / 6 + x^5 / 120 - x^7 / 5040 + x^9 / 362880"
  by (simp add: lessThan_nat_numeral lessThan_Suc sin_coeff_def fact_numeral)

lemma sin_err_11:
  "\<bar>sin (x::real) - (x - x^3 / 6 + x^5 / 120 - x^7 / 5040 + x^9 / 362880)\<bar>
     \<le> \<bar>x\<bar> ^ 11 / 39916800"
proof -
  have "fact 11 = (39916800::real)"
    by (simp add: fact_numeral)
  then have "inverse (fact 11) * \<bar>x\<bar> ^ 11 = \<bar>x\<bar> ^ 11 / 39916800"
    by (simp only: divide_inverse mult.commute)
  then show ?thesis
    using Maclaurin_sin_bound [of x 11] by (simp only: sin_taylor_11)
qed

lemma sin_hi: "1 / 2 < sin (52359878 / 100000000 :: real)"
proof -
  let ?x = "52359878 / 100000000 :: real"
  have "1 / 2 < (?x - ?x^3 / 6 + ?x^5 / 120 - ?x^7 / 5040 + ?x^9 / 362880) - \<bar>?x\<bar> ^ 11 / 39916800"
    by (simp add: power_divide)
  with sin_err_11 [of ?x] show ?thesis by linarith
qed

lemma sin_lo: "sin (52359877 / 100000000 :: real) < 1 / 2"
proof -
  let ?x = "52359877 / 100000000 :: real"
  have "(?x - ?x^3 / 6 + ?x^5 / 120 - ?x^7 / 5040 + ?x^9 / 362880) + \<bar>?x\<bar> ^ 11 / 39916800 < 1 / 2"
    by (simp add: power_divide)
  with sin_err_11 [of ?x] show ?thesis by linarith
qed

lemma pi_upper: "pi < 314159268 / 100000000"
proof (rule ccontr)
  assume "\<not> pi < 314159268 / 100000000"
  then have le: "52359878 / 100000000 \<le> pi / 6" by simp
  have "sin (52359878 / 100000000) \<le> sin (pi / 6)"
  proof (rule sin_monotone_2pi_le)
    show "- (pi / 2) \<le> 52359878 / 100000000" using pi_gt_zero by linarith
    show "52359878 / 100000000 \<le> pi / 6" by (rule le)
    show "pi / 6 \<le> pi / 2" by simp
  qed
  with sin_hi show False by (simp only: sin_30)
qed

lemma pi_lower: "314159262 / 100000000 < pi"
proof (rule ccontr)
  assume "\<not> 314159262 / 100000000 < pi"
  then have le: "pi / 6 \<le> 52359877 / 100000000" by simp
  have "sin (pi / 6) \<le> sin (52359877 / 100000000)"
  proof (rule sin_monotone_2pi_le)
    show "- (pi / 2) \<le> pi / 6" using pi_gt_zero by linarith
    show "pi / 6 \<le> 52359877 / 100000000" by (rule le)
    show "52359877 / 100000000 \<le> pi / 2" using pi_ge_two by linarith
  qed
  with sin_lo show False by (simp only: sin_30)
qed

lemma tan_pi_8_square: "(tan (pi / 8))\<^sup>2 = 1 - 2 * tan (pi / 8)"
proof -
  have c8: "cos (pi / 8) \<noteq> 0"
    using cos_gt_zero_pi [of "pi / 8"] pi_gt_zero by simp
  have c4: "cos (2 * (pi / 8)) \<noteq> 0"
    using cos_gt_zero_pi [of "2 * (pi / 8)"] pi_gt_zero by simp
  have "tan (2 * (pi / 8)) = 1" using tan_45 by simp
  then have eq: "2 * tan (pi / 8) / (1 - (tan (pi / 8))\<^sup>2) = 1"
    using tan_double [OF c8 c4] by simp
  then have "1 - (tan (pi / 8))\<^sup>2 \<noteq> 0" by auto
  with eq have "2 * tan (pi / 8) = 1 - (tan (pi / 8))\<^sup>2" by (simp add: field_simps)
  then show ?thesis by simp
qed

lemma tan_pi_8_lower: "4142135623 / 10000000000 < tan (pi / 8)"
proof (rule ccontr)
  let ?t = "tan (pi / 8)"
  assume "\<not> 4142135623 / 10000000000 < ?t"
  then have le: "?t \<le> 4142135623 / 10000000000" by simp
  have pos: "0 \<le> ?t" using tan_gt_zero [of "pi / 8"] pi_gt_zero by simp
  have "?t\<^sup>2 \<le> (4142135623 / 10000000000)\<^sup>2"
    using le pos by (rule power_mono)
  then have "?t\<^sup>2 + 2 * ?t < 1" using le by (simp add: power_divide)
  then show False by (simp add: tan_pi_8_square)
qed

lemma tan_pi_8_upper: "tan (pi / 8) < 4142135624 / 10000000000"
proof (rule ccontr)
  let ?t = "tan (pi / 8)"
  assume "\<not> ?t < 4142135624 / 10000000000"
  then have le: "4142135624 / 10000000000 \<le> ?t" by simp
  have "(4142135624 / 10000000000)\<^sup>2 \<le> ?t\<^sup>2"
    using le by (intro power_mono) simp_all
  then have "1 < ?t\<^sup>2 + 2 * ?t" using le by (simp add: power_divide)
  then show False by (simp add: tan_pi_8_square)
qed

lemma footprint_number_45:
  "footprint_number (Finite h) (Finite 45) = Finite (pi * (h * tan (pi / 8))\<^sup>2 / 1000000)"
  using footprint_number_valid [of 45 h] by simp

lemma pi_tan_square_lower:
  "314159262 / 100000000 * (4142135623 / 10000000000)\<^sup>2 < pi * (tan (pi / 8))\<^sup>2"
proof -
  have "(4142135623 / 10000000000)\<^sup>2 < (tan (pi / 8))\<^sup>2"
    using tan_pi_8_lower by (intro power_strict_mono) simp_all
  with pi_lower show ?thesis
    by (intro mult_strict_mono) simp_all
qed

lemma pi_tan_square_upper:
  "pi * (tan (pi / 8))\<^sup>2 < 314159268 / 100000000 * (4142135624 / 10000000000)\<^sup>2"
proof -
  have pos: "0 \<le> tan (pi / 8)" using tan_pi_8_lower by simp
  have "(tan (pi / 8))\<^sup>2 < (4142135624 / 10000000000)\<^sup>2"
    using tan_pi_8_upper pos by (intro power_strict_mono) simp_all
  with pi_upper show ?thesis
    using pi_gt_zero by (intro mult_strict_mono) simp_all
qed

lemma dec_digits_step:
  "10 \<le> n \<Longrightarrow> dec_digits n = dec_digits (n div 10) @ [digit_char (n mod 10)]"
  "n < 10 \<Longrightarrow> dec_digits n = [digit_char n]"
  by (subst dec_digits.simps, simp)+

lemma dec_digits_13: "dec_digits 13 = ''13''"
  by (simp add: dec_digits_step digit_char_def)

lemma dec_digits_13475302: "dec_digits 13475302 = ''13475302''"
  by (simp add: dec_digits_step digit_char_def)

lemma toFixed2_eval:
  assumes "0 \<le> x" and "x < 10 ^ 21" and "\<lfloor>x * 100 + 1 / 2\<rfloor> = int n"
    and "dec_digits n = m"
  shows "toFixed2 (Finite x) =
     (let k = length m;
          m' = (if k \<le> 2 then replicate (3 - k) CHR ''0'' @ m else m);
          k' = (if k \<le> 2 then 3 else k)
      in Text (take (k' - 2) m' @ ''.'' @ drop (k' - 2) m'))"
  using assms by (simp add: toFixed2_def Let_def not_le)

lemma pi_tan_square_bounds:
  "539012078 / 1000000000 < pi * (tan (pi / 8))\<^sup>2"
  "pi * (tan (pi / 8))\<^sup>2 < 53901209 / 100000000"
proof -
  have "(539012078 / 1000000000 :: real)
      < 314159262 / 100000000 * (4142135623 / 10000000000)\<^sup>2"
    by (simp add: power_divide)
  then show "539012078 / 1000000000 < pi * (tan (pi / 8))\<^sup>2"
    using pi_tan_square_lower by (rule less_trans)
  have "314159268 / 100000000 * (4142135624 / 10000000000)\<^sup>2
      < (53901209 / 100000000 :: real)"
    by (simp add: power_divide)
  with pi_tan_square_upper show "pi * (tan (pi / 8))\<^sup>2 < 53901209 / 100000000"
    by (rule less_trans)
qed

lemma footprint_500_45:
  "calculateFovFootprint (Finite 500) (Finite 45) = Text ''0.13''"
proof -
  let ?x = "pi * (500 * tan (pi / 8))\<^sup>2 / 1000000"
  have x: "?x = pi * (tan (pi / 8))\<^sup>2 / 4" by (simp add: power_mult_distrib)
  have pos: "0 \<le> ?x" by simp
  have small: "?x < 10 ^ 21" using pi_tan_square_bounds(2) unfolding x by simp
  have "\<lfloor>?x * 100 + 1 / 2\<rfloor> = 13"
    using pi_tan_square_bounds unfolding x by (intro floor_unique) simp_all
  then have fl: "\<lfloor>?x * 100 + 1 / 2\<rfloor> = int 13" by simp
  show ?thesis
    unfolding calculateFovFootprint_toFixed2 footprint_number_45
    using toFixed2_eval [OF pos small fl dec_digits_13] by simp
qed

lemma footprint_500000_45:
  "calculateFovFootprint (Finite 500000) (Finite 45) = Text ''134753.02''"
proof -
  let ?x = "pi * (500000 * tan (pi / 8))\<^sup>2 / 1000000"
  have x: "?x = pi * (tan (pi / 8))\<^sup>2 * 250000" by (simp add: power_mult_distrib)
  have pos: "0 \<le> ?x" by simp
  have small: "?x < 10 ^ 21" using pi_tan_square_bounds(2) unfolding x by simp
  have "\<lfloor>?x * 100 + 1 / 2\<rfloor> = 13475302"
    using pi_tan_square_bounds unfolding x by (intro floor_unique) simp_all
  then have fl: "\<lfloor>?x * 100 + 1 / 2\<rfloor> = int 13475302" by simp
  show ?thesis
    unfolding calculateFovFootprint_toFixed2 footprint_number_45
    using toFixed2_eval [OF pos small fl dec_digits_13475302] by simp
qed

text \<open>
  C3 (as amended). The altitude is taken in metres and the result is a string: for 500 km,
  given as 500000, and a full field of view of 45 degrees, \<open>calculateFovFootprint\<close>
  returns what \<open>toFixed(2)\<close> makes of \<open>\<pi> radius\<^sup>2\<close> with
  \<open>radius = 500 tan(22.5\<degree>)\<close>, where the radius lies between 207.10 and 207.11 km;
  that string is \<open>134753.02\<close>.
\<close>

theorem calculateFovFootprint_500km_45deg:
  "calculateFovFootprint (Finite 500000) (Finite 45)
     = toFixed2 (Finite (pi * (500 * tan (pi / 8))\<^sup>2))
   \<and> 20710 / 100 < 500 * tan (pi / 8) \<and> 500 * tan (pi / 8) < 20711 / 100
   \<and> calculateFovFootprint (Finite 500000) (Finite 45) = Text ''134753.02''"
proof -
  have "pi * (500000 * tan (pi / 8))\<^sup>2 / 1000000 = pi * (500 * tan (pi / 8))\<^sup>2"
    by (simp add: power_mult_distrib)
  then have "calculateFovFootprint (Finite 500000) (Finite 45)
     = toFixed2 (Finite (pi * (500 * tan (pi / 8))\<^sup>2))"
    by (simp only: calculateFovFootprint_toFixed2 footprint_number_45)
  moreover have "20710 / 100 < 500 * tan (pi / 8)"
    using tan_pi_8_lower by simp
  moreover have "500 * tan (pi / 8) < 20711 / 100"
    using tan_pi_8_upper by simp
  ultimately show ?thesis
    using footprint_500000_45 by simp
qed

text \<open>
  C3 (as stated) fails: applied to 500 and 45, \<open>calculateFovFootprint\<close> returns the
  string \<open>0.13\<close>, since it divides the area by \<open>10\<^sup>6\<close> and rounds to two fraction digits.
\<close>

theorem calculateFovFootprint_500_45_counterexample:
  "calculateFovFootprint (Finite 500) (Finite 45) = Text ''0.13''
   \<and> text_value (calculateFovFootprint (Finite 500) (Finite 45)) = Some (13 / 100)"
proof -
  have "text_value (Text ''0.13'') = Some (13 / 100)"
    by (simp add: Let_def is_digit_def nat_of_digits_def digit_value_def)
  then show ?thesis by (simp only: footprint_500_45)
qed



end
